theory Spec2Isabelle
  imports Main "HOL-Library.Char_ord" "HOL-Library.List_Lexorder" "HOL-Library.Option_ord"
begin

section \<open>The Sentinel-6 NRT notebook as a state-passing program\<close>

text \<open>
  The source is one Jupyter notebook, \<^verbatim>\<open>notebooks/sentinel-6/Access_Sentinel6_NRT.ipynb\<close>.
  Its code cells run top to bottom; an uncaught exception in a cell ends the run (the
  remaining cells are not executed). Each code cell of the workflow becomes one function
  over an explicit \<open>world\<close> (the local file system, the UTC clock and a log of the effects
  in the order they happen); the network and the catalog are an \<open>env\<close> the run consults.

  What the model takes from the environment rather than from the notebook:
  \<^item> the catalog's answer to the search URL and the outcome of every download;
  \<^item> the time the two network operations take (the clock advances only there);
  \<^item> local file operations do what they do on a healthy disk: \<^verbatim>\<open>makedirs\<close> creates the
    directory, reading an existing file returns its contents, writing a regular file
    name succeeds;
  \<^item> \<^verbatim>\<open>datetime\<close> arithmetic stays inside the years 1..9999, where it does not overflow.
\<close>

subsection \<open>Exceptions\<close>

datatype error =
    HTTPError nat
  | URLError
  | JSONDecodeError
  | KeyError string
  | IndexError
  | ContentTooShortError
  | IsADirectoryError

subsection \<open>Catalog records (the consumed fields of the \<^verbatim>\<open>umm_json\<close> response)\<close>

record related_url =
  URL :: string
  Type :: string

record granule =
  concept_id :: string
  RelatedUrls :: "related_url list"

record results =
  hits :: nat
  items :: "granule list"

subsection \<open>Parameters cell\<close>

record config =
  mins :: int
  cmr :: string
  ccid :: string
  data :: string

subsection \<open>World and environment\<close>

text \<open>A \<open>datetime\<close> is the number of microseconds since 0001-01-01T00:00:00 UTC.\<close>

type_synonym datetime = int

text \<open>
  The lines the notebook prints, one constructor per \<^verbatim>\<open>print\<close> statement, with the values
  it interpolates. The wall-clock prefix \<^verbatim>\<open>[{datetime.now()}]\<close> of the SUCCESS and FAILURE
  lines is left out. An \<open>event\<close> is a printed line or one call with an outside effect.
\<close>

datatype message =
    NoteNewDir string
  | WarnNoUpdate
  | NoteFound string
  | SearchUrl string
  | NewGranules nat string string
  | FirstRecord granule
  | Failure string error
  | Success string

datatype event =
    Print message
  | MakeDirs string
  | UrlOpen string
  | UrlRetrieve string string
  | WriteFile string string

record world =
  dirs :: "string set"
  files :: "string \<rightharpoonup> string"
  clock :: datetime
  trace :: "event list"

text \<open>
  What one call of \<^verbatim>\<open>urlretrieve\<close> can do: fetch the whole body; fail before the
  local file is opened (the request is refused); or fail after the local file was opened
  and partly written.
\<close>

datatype outcome =
    Fetched string
  | Refused error
  | Truncated string error

record env =
  catalog_response :: "string \<Rightarrow> error + results"
  catalog_latency :: nat
  retrieve_outcome :: "nat \<Rightarrow> string \<Rightarrow> outcome"
  retrieve_latency :: "nat \<Rightarrow> string \<Rightarrow> nat"

definition emit :: "event \<Rightarrow> world \<Rightarrow> world" where
  "emit e w = w\<lparr>trace := trace w @ [e]\<rparr>"

definition elapse :: "nat \<Rightarrow> world \<Rightarrow> world" where
  "elapse us w = w\<lparr>clock := clock w + int us\<rparr>"

definition utcnow :: "world \<Rightarrow> datetime" where
  "utcnow w = clock w"

subsection \<open>\<^verbatim>\<open>datetime.strftime("%Y-%m-%dT%H:%M:%SZ")\<close> and \<^verbatim>\<open>timedelta(minutes=...)\<close>\<close>

definition days_before_month :: "int list" where
  "days_before_month = [-1, 0, 31, 59, 90, 120, 151, 181, 212, 243, 273, 304, 334]"

definition days_in_month :: "int list" where
  "days_in_month = [-1, 31, 28, 31, 30, 31, 30, 31, 31, 30, 31, 30, 31]"

text \<open>The proleptic Gregorian ordinal (1 = 0001-01-01) to year, month, day.\<close>

definition ord2ymd :: "int \<Rightarrow> int \<times> int \<times> int" where
  "ord2ymd ordinal =
     (let n = ordinal - 1;
          n400 = n div 146097; n = n mod 146097;
          year = n400 * 400 + 1;
          n100 = n div 36524; n = n mod 36524;
          n4 = n div 1461; n = n mod 1461;
          n1 = n div 365; n = n mod 365;
          year = year + n100 * 100 + n4 * 4 + n1
      in if n1 = 4 \<or> n100 = 4 then (year - 1, 12, 31)
         else
           let leapyear = (n1 = 3 \<and> (n4 \<noteq> 24 \<or> n100 = 3));
               month = (n + 50) div 32;
               preceding = days_before_month ! nat month
                           + (if month > 2 \<and> leapyear then 1 else 0)
           in if preceding > n
              then let month = month - 1;
                       preceding = preceding - (days_in_month ! nat month
                                     + (if month = 2 \<and> leapyear then 1 else 0))
                   in (year, month, n - preceding + 1)
              else (year, month, n - preceding + 1))"

text \<open>
  The format \<^verbatim>\<open>%Y-%m-%dT%H:%M:%SZ\<close>: zero-padded decimal fields of the date and the time of
  day, the microseconds dropped. The year has four digits for the years 1000 to 9999.
\<close>

definition digit :: "int \<Rightarrow> char" where
  "digit d = ''0123456789'' ! nat (d mod 10)"

definition pad2 :: "int \<Rightarrow> string" where
  "pad2 n = [digit (n div 10), digit n]"

definition pad4 :: "int \<Rightarrow> string" where
  "pad4 n = [digit (n div 1000), digit (n div 100), digit (n div 10), digit n]"

definition strftime :: "datetime \<Rightarrow> string" where
  "strftime t =
     (let secs = t div 1000000;
          (y, m, d) = ord2ymd (secs div 86400 + 1);
          sod = secs mod 86400
      in pad4 y @ ''-'' @ pad2 m @ ''-'' @ pad2 d @ ''T''
         @ pad2 (sod div 3600) @ '':'' @ pad2 (sod mod 3600 div 60) @ '':''
         @ pad2 (sod mod 60) @ ''Z'')"

definition timedelta_minutes :: "int \<Rightarrow> int" where
  "timedelta_minutes m = m * 60 * 1000000"

subsection \<open>\<^verbatim>\<open>urllib.parse.urlencode\<close> and \<^verbatim>\<open>os.path.basename\<close>\<close>

text \<open>
  The values of the parameter dictionary are strings and one integer; \<^verbatim>\<open>urlencode\<close>
  turns each into text with \<^verbatim>\<open>str\<close> and quotes keys and values with \<^verbatim>\<open>quote_plus\<close>:
  letters, digits and \<^verbatim>\<open>_.-~\<close> are kept, a space becomes \<^verbatim>\<open>+\<close>, every other byte
  becomes \<^verbatim>\<open>%XX\<close> in upper-case hexadecimal; the pairs are joined by \<^verbatim>\<open>&\<close> in the order
  of the dictionary. \<^verbatim>\<open>basename\<close> is what follows the last slash.
\<close>

datatype param = PStr string | PInt int

fun str_nat :: "nat \<Rightarrow> string" where
  "str_nat n = (if n < 10 then [digit (int n)] else str_nat (n div 10) @ [digit (int n)])"

declare str_nat.simps [simp del]

definition str_param :: "param \<Rightarrow> string" where
  "str_param p =
     (case p of
        PStr s \<Rightarrow> s
      | PInt i \<Rightarrow> if i < 0 then ''-'' @ str_nat (nat (- i)) else str_nat (nat i))"

definition always_safe :: string where
  "always_safe = ''ABCDEFGHIJKLMNOPQRSTUVWXYZabcdefghijklmnopqrstuvwxyz0123456789_.-~''"

definition hexdigit :: "nat \<Rightarrow> char" where
  "hexdigit d = ''0123456789ABCDEF'' ! (d mod 16)"

definition quote_char :: "char \<Rightarrow> string" where
  "quote_char c =
     (if c \<in> set always_safe then [c]
      else if c = CHR '' '' then ''+''
      else [CHR ''%'', hexdigit (of_char c div 16), hexdigit (of_char c)])"

definition quote_plus :: "string \<Rightarrow> string" where
  "quote_plus s = concat (map quote_char s)"

fun join_amp :: "string list \<Rightarrow> string" where
  "join_amp [] = []"
| "join_amp [x] = x"
| "join_amp (x # y # ys) = x @ ''&'' @ join_amp (y # ys)"

definition urlencode :: "(string \<times> param) list \<Rightarrow> string" where
  "urlencode query =
     join_amp (map (\<lambda>(k, v). quote_plus k @ ''='' @ quote_plus (str_param v)) query)"

definition basename :: "string \<Rightarrow> string" where
  "basename p = rev (takeWhile (\<lambda>c. c \<noteq> CHR ''/'') (rev p))"

subsection \<open>Cell: default timestamp\<close>

text \<open>
  \<^verbatim>\<open>timestamp = (datetime.utcnow()-timedelta(minutes=mins)).strftime("%Y-%m-%dT%H:%M:%SZ")\<close>
\<close>

definition default_timestamp :: "config \<Rightarrow> world \<Rightarrow> string" where
  "default_timestamp cfg w = strftime (utcnow w - timedelta_minutes (mins cfg))"

subsection \<open>Cell: read \<^verbatim>\<open>.update\<close>\<close>

definition update_path :: "config \<Rightarrow> string" where
  "update_path cfg = data cfg @ ''/.update''"

text \<open>
  \<^verbatim>\<open>if not isdir(data): print NOTE; makedirs(data)\<close>, otherwise \<^verbatim>\<open>timestamp = f.read()\<close>
  from \<^verbatim>\<open>{data}/.update\<close>, with \<^verbatim>\<open>FileNotFoundError\<close> caught and reported as a warning.
\<close>

definition read_update :: "config \<Rightarrow> string \<Rightarrow> world \<Rightarrow> string \<times> world" where
  "read_update cfg timestamp w =
     (if data cfg \<notin> dirs w then
        let w = emit (Print (NoteNewDir (data cfg))) w;
            w = emit (MakeDirs (data cfg)) (w\<lparr>dirs := insert (data cfg) (dirs w)\<rparr>)
        in (timestamp, w)
      else
        case files w (update_path cfg) of
          None \<Rightarrow> (timestamp, emit (Print WarnNoUpdate) w)
        | Some contents \<Rightarrow> (contents, emit (Print (NoteFound contents)) w))"

subsection \<open>Cells: query parameters and search URL\<close>

definition params :: "config \<Rightarrow> string \<Rightarrow> (string \<times> param) list" where
  "params cfg timestamp =
     [(''scroll'', PStr ''true''),
      (''page_size'', PInt 2000),
      (''sort_key'', PStr ''-start_date''),
      (''collection_concept_id'', PStr (ccid cfg)),
      (''created_at'', PStr timestamp),
      (''bounding_box'', PStr ''-146.5,57.5,-146,58'')]"

definition search_url :: "config \<Rightarrow> string \<Rightarrow> string" where
  "search_url cfg timestamp =
     ''https://'' @ cmr cfg @ ''/search/granules.umm_json?'' @ urlencode (params cfg timestamp)"

subsection \<open>Cell: the search request and the new timestamp\<close>

text \<open>
  \<^verbatim>\<open>with urlopen(url) as f: results = loads(f.read().decode())\<close>, the hit-count line, then
  \<^verbatim>\<open>timestamp = datetime.utcnow().strftime(...)\<close>. Any exception of the request or of
  decoding the body ends the run before the timestamp is taken.
\<close>

definition query_catalog ::
  "config \<Rightarrow> env \<Rightarrow> string \<Rightarrow> string \<Rightarrow> world \<Rightarrow> (error + results \<times> string) \<times> world" where
  "query_catalog cfg env url timestamp w =
     (let w = elapse (catalog_latency env) (emit (UrlOpen url) w)
      in case catalog_response env url of
           Inl e \<Rightarrow> (Inl e, w)
         | Inr res \<Rightarrow>
             let w = emit (Print (NewGranules (hits res) (ccid cfg) timestamp)) w
             in (Inr (res, strftime (utcnow w)), w))"

definition print_first_record :: "results \<Rightarrow> world \<Rightarrow> world" where
  "print_first_record res w =
     (case items res of [] \<Rightarrow> w | r # _ \<Rightarrow> emit (Print (FirstRecord r)) w)"

subsection \<open>Cell: select the download URL of every record\<close>

text \<open>
  \<^verbatim>\<open>[[u['URL'] for u in r['umm']['RelatedUrls'] if u['Type']=="GET DATA"][0] for r in results['items']]\<close>
\<close>

definition get_data_urls :: "granule \<Rightarrow> string list" where
  "get_data_urls r = map URL (filter (\<lambda>u. Type u = ''GET DATA'') (RelatedUrls r))"

definition select_url :: "granule \<Rightarrow> error + string" where
  "select_url r = (case get_data_urls r of [] \<Rightarrow> Inl IndexError | x # _ \<Rightarrow> Inr x)"

fun select_downloads :: "granule list \<Rightarrow> error + string list" where
  "select_downloads [] = Inr []"
| "select_downloads (r # rs) =
     (case select_url r of
        Inl e \<Rightarrow> Inl e
      | Inr x \<Rightarrow> (case select_downloads rs of Inl e \<Rightarrow> Inl e | Inr xs \<Rightarrow> Inr (x # xs)))"

subsection \<open>Cell: the download loop\<close>

text \<open>
  \<^verbatim>\<open>urlretrieve(url, filename)\<close> opens the URL first, then the local file for writing,
  then copies the body. Opening the local file raises \<^verbatim>\<open>IsADirectoryError\<close> when the name
  after the last slash is empty, \<^verbatim>\<open>.\<close> or \<^verbatim>\<open>..\<close>; otherwise the file is created or
  replaced.
\<close>

definition names_a_directory :: "string \<Rightarrow> bool" where
  "names_a_directory filename = (basename filename \<in> {'''', ''.'', ''..''})"

definition urlretrieve ::
  "env \<Rightarrow> nat \<Rightarrow> string \<Rightarrow> string \<Rightarrow> world \<Rightarrow> (error + unit) \<times> world" where
  "urlretrieve env i url filename w =
     (let w = elapse (retrieve_latency env i url) (emit (UrlRetrieve url filename) w)
      in case retrieve_outcome env i url of
           Refused e \<Rightarrow> (Inl e, w)
         | Fetched body \<Rightarrow>
             if names_a_directory filename then (Inl IsADirectoryError, w)
             else (Inr (), w\<lparr>files := (files w)(filename \<mapsto> body)\<rparr>)
         | Truncated part e \<Rightarrow>
             if names_a_directory filename then (Inl IsADirectoryError, w)
             else (Inl e, w\<lparr>files := (files w)(filename \<mapsto> part)\<rparr>))"

definition target :: "config \<Rightarrow> string \<Rightarrow> string" where
  "target cfg f = data cfg @ ''/'' @ basename f"

text \<open>
  \<^verbatim>\<open>for f in downloads: try: urlretrieve(f, f"{data}/{basename(f)}") except Exception as e:
  print FAILURE; raise e else: print SUCCESS\<close>. The counter \<open>i\<close> numbers the attempts.
\<close>

fun download_loop ::
  "config \<Rightarrow> env \<Rightarrow> nat \<Rightarrow> string list \<Rightarrow> world \<Rightarrow> (error + unit) \<times> world" where
  "download_loop cfg env i [] w = (Inr (), w)"
| "download_loop cfg env i (f # fs) w =
     (case urlretrieve env i f (target cfg f) w of
        (Inl e, w') \<Rightarrow> (Inl e, emit (Print (Failure f e)) w')
      | (Inr _, w') \<Rightarrow> download_loop cfg env (Suc i) fs (emit (Print (Success f)) w'))"

subsection \<open>Cell: overwrite \<^verbatim>\<open>.update\<close>\<close>

text \<open>
  \<^verbatim>\<open>if len(results['items'])>0: with open(f"{data}/.update", "w") as f: f.write(timestamp)\<close>
\<close>

definition write_update :: "config \<Rightarrow> results \<Rightarrow> string \<Rightarrow> world \<Rightarrow> world" where
  "write_update cfg res timestamp w =
     (if length (items res) > 0
      then emit (WriteFile (update_path cfg) timestamp)
             (w\<lparr>files := (files w)(update_path cfg \<mapsto> timestamp)\<rparr>)
      else w)"

subsection \<open>The whole run\<close>

text \<open>The notebook's variables after the last cell, when no cell raised.\<close>

record vars =
  timestamp :: string
  results :: results
  downloads :: "string list"

definition resolve_watermark :: "config \<Rightarrow> world \<Rightarrow> string \<times> world" where
  "resolve_watermark cfg w = read_update cfg (default_timestamp cfg w) w"

definition run :: "config \<Rightarrow> env \<Rightarrow> world \<Rightarrow> (error + vars) \<times> world" where
  "run cfg env w =
     (let (timestamp, w) = resolve_watermark cfg w;
          url = search_url cfg timestamp;
          w = emit (Print (SearchUrl url)) w
      in case query_catalog cfg env url timestamp w of
           (Inl e, w) \<Rightarrow> (Inl e, w)
         | (Inr (res, timestamp), w) \<Rightarrow>
             let w = print_first_record res w
             in case select_downloads (items res) of
                  Inl e \<Rightarrow> (Inl e, w)
                | Inr dl \<Rightarrow>
                    (case download_loop cfg env 0 dl w of
                       (Inl e, w) \<Rightarrow> (Inl e, w)
                     | (Inr _, w) \<Rightarrow>
                         (Inr \<lparr>timestamp = timestamp, results = res, downloads = dl\<rparr>,
                          write_update cfg res timestamp w)))"

section \<open>Reading the log of a run\<close>

text \<open>
  Projections of the effect log: the downloads attempted (URL and local path), the URLs
  opened for the catalog search, and the files written by the last cell. The other
  definitions name intermediate states of a run; they are used to state and prove the
  properties below and are not part of the notebook.
\<close>

fun retrieved :: "event \<Rightarrow> (string \<times> string) list" where
  "retrieved (UrlRetrieve u p) = [(u, p)]"
| "retrieved _ = []"

fun opened :: "event \<Rightarrow> string list" where
  "opened (UrlOpen u) = [u]"
| "opened _ = []"

fun written :: "event \<Rightarrow> (string \<times> string) list" where
  "written (WriteFile p c) = [(p, c)]"
| "written _ = []"

definition retrievals :: "event list \<Rightarrow> (string \<times> string) list" where
  "retrievals evs = concat (map retrieved evs)"

definition opens :: "event list \<Rightarrow> string list" where
  "opens evs = concat (map opened evs)"

definition writes :: "event list \<Rightarrow> (string \<times> string) list" where
  "writes evs = concat (map written evs)"

definition events_of_run :: "config \<Rightarrow> env \<Rightarrow> world \<Rightarrow> event list" where
  "events_of_run cfg env w = drop (length (trace w)) (trace (snd (run cfg env w)))"

definition request_url :: "config \<Rightarrow> world \<Rightarrow> string" where
  "request_url cfg w = search_url cfg (fst (resolve_watermark cfg w))"

definition capture_time :: "env \<Rightarrow> world \<Rightarrow> datetime" where
  "capture_time env w = clock w + int (catalog_latency env)"

definition world_at_query :: "config \<Rightarrow> env \<Rightarrow> world \<Rightarrow> world" where
  "world_at_query cfg env w =
     elapse (catalog_latency env)
       (emit (UrlOpen (request_url cfg w))
          (emit (Print (SearchUrl (request_url cfg w))) (snd (resolve_watermark cfg w))))"

definition world_at_selection :: "config \<Rightarrow> env \<Rightarrow> results \<Rightarrow> world \<Rightarrow> world" where
  "world_at_selection cfg env res w =
     print_first_record res
       (emit (Print (NewGranules (hits res) (ccid cfg) (fst (resolve_watermark cfg w))))
          (world_at_query cfg env w))"

definition download_time :: "env \<Rightarrow> string list \<Rightarrow> nat" where
  "download_time env dl = (\<Sum>j<length dl. retrieve_latency env j (dl ! j))"



definition first_page_urls :: "config \<Rightarrow> env \<Rightarrow> world \<Rightarrow> string list" where
  "first_page_urls cfg env w =
     (case catalog_response env (request_url cfg w) of
        Inl e \<Rightarrow> []
      | Inr res \<Rightarrow> (case select_downloads (items res) of Inl e \<Rightarrow> [] | Inr dl \<Rightarrow> dl))"

text \<open>
  The watermark stored in the data directory, and a sequence of runs of the same
  notebook on the same directory: each run starts at its own clock reading and in its own
  environment, on the files the previous run left.
\<close>

definition watermark :: "config \<Rightarrow> world \<Rightarrow> string option" where
  "watermark cfg w = (if data cfg \<in> dirs w then files w (update_path cfg) else None)"

fun worlds_after :: "config \<Rightarrow> (datetime \<times> env) list \<Rightarrow> world \<Rightarrow> world list" where
  "worlds_after cfg [] w = []"
| "worlds_after cfg ((t, env) # rest) w =
     (let w' = snd (run cfg env (w\<lparr>clock := t\<rparr>)) in w' # worlds_after cfg rest w')"

fun successful_runs :: "config \<Rightarrow> (datetime \<times> env) list \<Rightarrow> world \<Rightarrow> bool" where
  "successful_runs cfg [] w = True"
| "successful_runs cfg ((t, env) # rest) w =
     (\<not> isl (fst (run cfg env (w\<lparr>clock := t\<rparr>)))
      \<and> fst (resolve_watermark cfg (w\<lparr>clock := t\<rparr>))
          \<le> strftime (capture_time env (w\<lparr>clock := t\<rparr>))
      \<and> successful_runs cfg rest (snd (run cfg env (w\<lparr>clock := t\<rparr>))))"

section \<open>Concrete runs\<close>

text \<open>
  The parameters are the ones of the notebook's parameter cell, and the starting state
  is the one its saved output shows: \<^verbatim>\<open>resources/nrt/.update\<close> holds
  \<^verbatim>\<open>2020-09-02T16:46:32Z\<close> and the clock reads 2020-09-02T16:57:10.5 UTC
  (63734662630500000 microseconds after 0001-01-01T00:00:00). The URLs are shortened.
\<close>

definition nb_cfg :: config where
  "nb_cfg = \<lparr>mins = 20, cmr = ''cmr.uat.earthdata.nasa.gov'', ccid = ''C1234724471-POCLOUD'',
             data = ''resources/nrt''\<rparr>"

definition nb_world :: world where
  "nb_world = \<lparr>dirs = {''resources/nrt''},
      files = [''resources/nrt/.update'' \<mapsto> ''2020-09-02T16:46:32Z''],
      clock = 63734662630500000, trace = []\<rparr>"

text \<open>
  Granule records: \<open>granule_a\<close> has two \<^verbatim>\<open>GET DATA\<close> links after a metadata link,
  \<open>granule_b\<close> has one, \<open>granule_n\<close> has none, and the data file of \<open>granule_u\<close> is
  itself called \<^verbatim>\<open>.update\<close>.
\<close>

definition link :: "string \<Rightarrow> string \<Rightarrow> related_url" where
  "link ty u = \<lparr>URL = u, Type = ty\<rparr>"

definition granule_a :: granule where
  "granule_a = \<lparr>concept_id = ''G1237493756-POCLOUD'',
     RelatedUrls = [link ''EXTENDED METADATA'' ''https://archive.test/public/a.nc.md5'',
                    link ''GET DATA'' ''https://archive.test/protected/a.nc'',
                    link ''GET DATA'' ''https://mirror.test/protected/a2.nc'',
                    link ''VIEW RELATED INFORMATION'' ''https://archive.test/s3credentials'']\<rparr>"

definition granule_b :: granule where
  "granule_b = \<lparr>concept_id = ''G1237493757-POCLOUD'',
     RelatedUrls = [link ''GET DATA'' ''https://archive.test/protected/b.nc'']\<rparr>"

definition granule_n :: granule where
  "granule_n = \<lparr>concept_id = ''G1237493759-POCLOUD'',
     RelatedUrls = [link ''EXTENDED METADATA'' ''https://archive.test/public/n.nc.md5'',
                    link ''VIEW RELATED INFORMATION'' ''https://archive.test/s3credentials'']\<rparr>"

definition granule_u :: granule where
  "granule_u = \<lparr>concept_id = ''G1237493758-POCLOUD'',
     RelatedUrls = [link ''GET DATA'' ''https://archive.test/protected/.update'']\<rparr>"

text \<open>
  The run the notebook's output shows: the catalog answers after 2.75 s with two
  granules and both downloads succeed, 4 s each. \<open>nb_vars\<close> and \<open>nb_final\<close> are the
  variables and the world this run ends with.
\<close>

definition nb_env :: env where
  "nb_env = \<lparr>catalog_response = (\<lambda>url. Inr \<lparr>hits = 2, items = [granule_a, granule_b]\<rparr>),
      catalog_latency = 2750000,
      retrieve_outcome = (\<lambda>i url. Fetched (''netcdf:'' @ url)),
      retrieve_latency = (\<lambda>i url. 4000000)\<rparr>"

definition nb_vars :: vars where
  "nb_vars = \<lparr>timestamp = ''2020-09-02T16:57:13Z'',
      results = \<lparr>hits = 2, items = [granule_a, granule_b]\<rparr>,
      downloads = [''https://archive.test/protected/a.nc'',
                   ''https://archive.test/protected/b.nc'']\<rparr>"

definition nb_final :: world where
  "nb_final = \<lparr>dirs = {''resources/nrt''},
      files = [''resources/nrt/a.nc'' \<mapsto> ''netcdf:https://archive.test/protected/a.nc'',
               ''resources/nrt/b.nc'' \<mapsto> ''netcdf:https://archive.test/protected/b.nc'',
               ''resources/nrt/.update'' \<mapsto> ''2020-09-02T16:57:13Z''],
      clock = 63734662641250000,
      trace = [Print (NoteFound ''2020-09-02T16:46:32Z''),
               Print (SearchUrl (search_url nb_cfg ''2020-09-02T16:46:32Z'')),
               UrlOpen (search_url nb_cfg ''2020-09-02T16:46:32Z''),
               Print (NewGranules 2 ''C1234724471-POCLOUD'' ''2020-09-02T16:46:32Z''),
               Print (FirstRecord granule_a),
               UrlRetrieve ''https://archive.test/protected/a.nc'' ''resources/nrt/a.nc'',
               Print (Success ''https://archive.test/protected/a.nc''),
               UrlRetrieve ''https://archive.test/protected/b.nc'' ''resources/nrt/b.nc'',
               Print (Success ''https://archive.test/protected/b.nc''),
               WriteFile ''resources/nrt/.update'' ''2020-09-02T16:57:13Z'']\<rparr>"

text \<open>
  Other environments: the first download succeeds and the second is refused
  (\<open>refusing_env\<close>; \<open>clobber_env\<close> is the same with \<open>granule_u\<close> first); one record has
  no download link (\<open>missing_link_env\<close>); the catalog reports 5000 hits and returns
  two items (\<open>many_hits_env\<close>); the catalog returns nothing new (\<open>quiet_env\<close>); the
  second download breaks off after four bytes (\<open>flaky_env\<close>).
\<close>

definition refusing_env :: env where
  "refusing_env = \<lparr>catalog_response = (\<lambda>url. Inr \<lparr>hits = 2, items = [granule_a, granule_b]\<rparr>),
      catalog_latency = 2750000,
      retrieve_outcome = (\<lambda>i url. if i = 0 then Fetched (''netcdf:'' @ url)
                                    else Refused (HTTPError 503)),
      retrieve_latency = (\<lambda>i url. 4000000)\<rparr>"

definition clobber_env :: env where
  "clobber_env = \<lparr>catalog_response = (\<lambda>url. Inr \<lparr>hits = 2, items = [granule_u, granule_b]\<rparr>),
      catalog_latency = 2750000,
      retrieve_outcome = (\<lambda>i url. if i = 0 then Fetched ''netcdf bytes'' else Refused (HTTPError 503)),
      retrieve_latency = (\<lambda>i url. 4000000)\<rparr>"

definition missing_link_env :: env where
  "missing_link_env = \<lparr>catalog_response = (\<lambda>url. Inr \<lparr>hits = 2, items = [granule_b, granule_n]\<rparr>),
      catalog_latency = 2750000,
      retrieve_outcome = (\<lambda>i url. Fetched (''netcdf:'' @ url)),
      retrieve_latency = (\<lambda>i url. 4000000)\<rparr>"

definition many_hits_env :: env where
  "many_hits_env = \<lparr>catalog_response = (\<lambda>url. Inr \<lparr>hits = 5000, items = [granule_a, granule_b]\<rparr>),
      catalog_latency = 2750000,
      retrieve_outcome = (\<lambda>i url. Fetched (''netcdf:'' @ url)),
      retrieve_latency = (\<lambda>i url. 4000000)\<rparr>"

definition quiet_env :: env where
  "quiet_env = \<lparr>catalog_response = (\<lambda>url. Inr \<lparr>hits = 0, items = []\<rparr>),
      catalog_latency = 2750000,
      retrieve_outcome = (\<lambda>i url. Refused URLError),
      retrieve_latency = (\<lambda>i url. 0)\<rparr>"

definition flaky_env :: env where
  "flaky_env = \<lparr>catalog_response = (\<lambda>url. Inl URLError),
      catalog_latency = 0,
      retrieve_outcome = (\<lambda>i url. if i = 0 then Fetched (''netcdf:'' @ url)
                                    else Truncated ''netc'' ContentTooShortError),
      retrieve_latency = (\<lambda>i url. 4000000)\<rparr>"

definition three_urls :: "string list" where
  "three_urls = [''https://archive.test/protected/a.nc'',
                 ''https://archive.test/protected/b.nc'',
                 ''https://archive.test/protected/c.nc'']"





text \<open>Three runs, one hour apart: two new granules, nothing new, two new granules.\<close>

definition three_runs :: "(datetime \<times> env) list" where
  "three_runs = [(63734662630500000, nb_env), (63734666230500000, quiet_env),
                 (63734669830500000, nb_env)]"

section \<open>The watermark read as the specification words it\<close>






section \<open>Facts used by the claims\<close>

subsection \<open>Basic facts about the cells\<close>

lemma emit_fields [simp]:
  "trace (emit e w) = trace w @ [e]" "files (emit e w) = files w"
  "dirs (emit e w) = dirs w" "clock (emit e w) = clock w"
  by (simp_all add: emit_def)

lemma elapse_fields [simp]:
  "trace (elapse n w) = trace w" "files (elapse n w) = files w"
  "dirs (elapse n w) = dirs w" "clock (elapse n w) = clock w + int n"
  by (simp_all add: elapse_def)

lemma retrievals_simps [simp]:
  "retrievals [] = []" "retrievals (e # evs) = retrieved e @ retrievals evs"
  "retrievals (xs @ ys) = retrievals xs @ retrievals ys"
  by (simp_all add: retrievals_def)

lemma opens_simps [simp]:
  "opens [] = []" "opens (e # evs) = opened e @ opens evs"
  "opens (xs @ ys) = opens xs @ opens ys"
  by (simp_all add: opens_def)

lemma writes_simps [simp]:
  "writes [] = []" "writes (e # evs) = written e @ writes evs"
  "writes (xs @ ys) = writes xs @ writes ys"
  by (simp_all add: writes_def)

lemma print_first_record_fields [simp]:
  "files (print_first_record res w) = files w"
  "clock (print_first_record res w) = clock w"
  "dirs (print_first_record res w) = dirs w"
  by (simp_all add: print_first_record_def split: list.splits)

lemma write_update_effect:
  "files (write_update cfg res ts w) (update_path cfg) =
     (if items res = [] then files w (update_path cfg) else Some ts)"
  "trace (write_update cfg res ts w) =
     trace w @ (if items res = [] then [] else [WriteFile (update_path cfg) ts])"
  "q \<noteq> update_path cfg \<Longrightarrow> files (write_update cfg res ts w) q = files w q"
  "dirs (write_update cfg res ts w) = dirs w"
  "clock (write_update cfg res ts w) = clock w"
  by (simp_all add: write_update_def)

text \<open>One call of urlretrieve: what it logs and which file it can touch.\<close>

lemma urlretrieve_effect:
  assumes "urlretrieve env i u p w = (r, w')"
  shows "trace w' = trace w @ [UrlRetrieve u p]"
    and "dirs w' = dirs w"
    and "clock w' = clock w + int (retrieve_latency env i u)"
    and "q \<noteq> p \<Longrightarrow> files w' q = files w q"
  using assms by (auto simp: urlretrieve_def Let_def split: outcome.splits if_splits)

lemma urlretrieve_success:
  "urlretrieve env i u p w = (Inr x, w') \<Longrightarrow>
     \<exists>body. retrieve_outcome env i u = Fetched body \<and> files w' p = Some body"
  by (auto simp: urlretrieve_def Let_def split: outcome.splits if_splits)

lemma target_eq_iff: "target cfg a = target cfg b \<longleftrightarrow> basename a = basename b"
  by (simp add: target_def)

lemma basename_no_slash: "CHR ''/'' \<notin> set (basename p)"
proof -
  have "\<forall>c\<in>set (takeWhile (\<lambda>c. c \<noteq> CHR ''/'') (rev p)). c \<noteq> CHR ''/''"
    using set_takeWhileD by fastforce
  then show ?thesis by (auto simp: basename_def)
qed

lemma basename_last_segment: "CHR ''/'' \<notin> set s \<Longrightarrow> basename (p @ ''/'' @ s) = s"
proof -
  assume "CHR ''/'' \<notin> set s"
  then have "takeWhile (\<lambda>c. c \<noteq> CHR ''/'') (rev s @ CHR ''/'' # rev p) = rev s"
    by (intro takeWhile_tail[THEN trans, rotated] ) (auto simp: takeWhile_append2)
  then show ?thesis by (simp add: basename_def)
qed


lemma str_param_PStr: "str_param (PStr s) = s"
  by (simp add: str_param_def)

lemma quoted_literals:
  "quote_plus ''scroll'' = ''scroll''" "quote_plus ''true'' = ''true''"
  "quote_plus ''page_size'' = ''page_size''" "quote_plus ''2000'' = ''2000''"
  "str_param (PInt 2000) = ''2000''"
  "quote_plus ''sort_key'' = ''sort_key''" "quote_plus ''-start_date'' = ''-start_date''"
  "quote_plus ''collection_concept_id'' = ''collection_concept_id''"
  "quote_plus ''created_at'' = ''created_at''"
  "quote_plus ''bounding_box'' = ''bounding_box''"
  "quote_plus ''-146.5,57.5,-146,58'' = ''-146.5%2C57.5%2C-146%2C58''"
  by code_simp+



subsection \<open>The selector\<close>

lemma first_match:
  "(case map URL (filter P xs) of [] \<Rightarrow> Inl IndexError | x # _ \<Rightarrow> Inr x) =
   (case find P xs of None \<Rightarrow> Inl IndexError | Some u \<Rightarrow> Inr (URL u))"
  by (induction xs) simp_all

lemma select_url_find:
  "select_url r =
     (case find (\<lambda>u. Type u = ''GET DATA'') (RelatedUrls r) of
        None \<Rightarrow> Inl IndexError
      | Some u \<Rightarrow> Inr (URL u))"
  unfolding select_url_def get_data_urls_def by (rule first_match)

lemma find_first:
  "xs = pre @ u # post \<Longrightarrow> P u \<Longrightarrow> \<forall>x\<in>set pre. \<not> P x \<Longrightarrow> find P xs = Some u"
  by (induction pre arbitrary: xs) auto

lemma select_url_error: "select_url g = Inl e \<Longrightarrow> e = IndexError"
  by (simp add: select_url_def split: list.splits)

lemma select_downloads_fails:
  "g \<in> set gs \<Longrightarrow> select_url g = Inl e \<Longrightarrow> select_downloads gs = Inl IndexError"
  by (induction gs) (auto split: sum.splits dest: select_url_error)

lemma select_downloads_map:
  "select_downloads gs = Inr dl \<Longrightarrow> map select_url gs = map Inr dl"
  by (induction gs arbitrary: dl) (auto split: sum.splits)

lemma select_downloads_Nil: "select_downloads gs = Inr dl \<Longrightarrow> gs = [] \<Longrightarrow> dl = []"
  by simp

lemma select_downloads_length: "select_downloads gs = Inr dl \<Longrightarrow> length dl = length gs"
  by (induction gs arbitrary: dl) (auto split: sum.splits)

subsection \<open>The download loop\<close>

lemma download_loop_log:
  "download_loop cfg env i dl w = (r, w') \<Longrightarrow>
     \<exists>k evs. trace w' = trace w @ evs \<and> k \<le> length dl
        \<and> retrievals evs = map (\<lambda>u. (u, target cfg u)) (take k dl)
        \<and> opens evs = [] \<and> writes evs = []
        \<and> (r = Inr () \<longrightarrow> k = length dl) \<and> (\<forall>e. r = Inl e \<longrightarrow> 0 < k)"
proof (induction dl arbitrary: i w)
  case Nil
  then show ?case by auto
next
  case (Cons f fs)
  obtain r1 w1 where step: "urlretrieve env i f (target cfg f) w = (r1, w1)"
    by (cases "urlretrieve env i f (target cfg f) w")
  note tr1 = urlretrieve_effect(1)[OF step]
  show ?case
  proof (cases r1)
    case (Inl e)
    with Cons.prems step have "r = Inl e" "w' = emit (Print (Failure f e)) w1"
      by auto
    with tr1 show ?thesis
      by (intro exI[of _ "Suc 0"] exI[of _ "[UrlRetrieve f (target cfg f), Print (Failure f e)]"])
         simp
  next
    case (Inr x)
    with Cons.prems step
    have rest: "download_loop cfg env (Suc i) fs (emit (Print (Success f)) w1) = (r, w')"
      by auto
    from Cons.IH[OF rest] obtain k evs where
      k: "trace w' = trace (emit (Print (Success f)) w1) @ evs" "k \<le> length fs"
         "retrievals evs = map (\<lambda>u. (u, target cfg u)) (take k fs)"
         "opens evs = []" "writes evs = []" "r = Inr () \<longrightarrow> k = length fs"
      by blast
    with tr1 show ?thesis
      by (intro exI[of _ "Suc k"]
            exI[of _ "[UrlRetrieve f (target cfg f), Print (Success f)] @ evs"]) simp
  qed
qed

lemma download_loop_frame:
  "download_loop cfg env i dl w = (r, w') \<Longrightarrow> trace w' = trace w @ evs \<Longrightarrow>
   \<forall>u. (u, p) \<notin> set (retrievals evs) \<Longrightarrow> files w' p = files w p"
proof (induction dl arbitrary: i w evs)
  case Nil
  then show ?case by simp
next
  case (Cons f fs)
  obtain r1 w1 where step: "urlretrieve env i f (target cfg f) w = (r1, w1)"
    by (cases "urlretrieve env i f (target cfg f) w")
  note tr1 = urlretrieve_effect(1)[OF step]
  show ?case
  proof (cases r1)
    case (Inl e)
    with Cons.prems(1) step have w': "w' = emit (Print (Failure f e)) w1"
      by auto
    with tr1 Cons.prems(2) have "evs = [UrlRetrieve f (target cfg f), Print (Failure f e)]"
      by simp
    with Cons.prems(3) have "p \<noteq> target cfg f" by auto
    with urlretrieve_effect(4)[OF step] w' show ?thesis by simp
  next
    case (Inr x)
    with Cons.prems(1) step
    have rest: "download_loop cfg env (Suc i) fs (emit (Print (Success f)) w1) = (r, w')"
      by auto
    from download_loop_log[OF rest] obtain evs' where
      evs': "trace w' = trace (emit (Print (Success f)) w1) @ evs'"
      by blast
    with tr1 Cons.prems(2) have evs: "evs = [UrlRetrieve f (target cfg f), Print (Success f)] @ evs'"
      by simp
    with Cons.prems(3) have ne: "p \<noteq> target cfg f" and "\<forall>u. (u, p) \<notin> set (retrievals evs')"
      by auto
    from Cons.IH[OF rest evs' this(2)] urlretrieve_effect(4)[OF step ne]
    show ?thesis by simp
  qed
qed

lemma download_loop_untouched:
  assumes "download_loop cfg env i dl w = (r, w')" and "\<forall>j<length dl. target cfg (dl ! j) \<noteq> p"
  shows "files w' p = files w p"
proof -
  from download_loop_log[OF assms(1)] obtain k evs where
    evs: "trace w' = trace w @ evs"
    "retrievals evs = map (\<lambda>u. (u, target cfg u)) (take k dl)"
    by blast
  have "(u, p) \<notin> set (retrievals evs)" for u
  proof
    assume "(u, p) \<in> set (retrievals evs)"
    with evs(2) have "u \<in> set (take k dl)" "p = target cfg u" by auto
    then obtain j where "j < length dl" "dl ! j = u"
      by (meson in_set_conv_nth in_set_takeD)
    with assms(2) \<open>p = target cfg u\<close> show False by auto
  qed
  with download_loop_frame[OF assms(1) evs(1)] show ?thesis by blast
qed

lemma download_loop_dirs:
  "download_loop cfg env i dl w = (r, w') \<Longrightarrow> dirs w' = dirs w"
proof (induction dl arbitrary: i w)
  case Nil
  then show ?case by simp
next
  case (Cons f fs)
  then show ?case
    by (auto split: prod.splits sum.splits dest: urlretrieve_effect(2))
qed

lemma download_loop_clock:
  "download_loop cfg env i dl w = (Inr (), w') \<Longrightarrow>
     clock w' = clock w + int (\<Sum>j<length dl. retrieve_latency env (i + j) (dl ! j))"
proof (induction dl arbitrary: i w)
  case Nil
  then show ?case by simp
next
  case (Cons f fs)
  obtain r1 w1 where step: "urlretrieve env i f (target cfg f) w = (r1, w1)"
    by (cases "urlretrieve env i f (target cfg f) w")
  with Cons.prems have rest:
    "download_loop cfg env (Suc i) fs (emit (Print (Success f)) w1) = (Inr (), w')"
    by (auto split: sum.splits)
  from Cons.IH[OF rest] urlretrieve_effect(3)[OF step] show ?case
    by (simp add: sum.lessThan_Suc_shift del: sum.lessThan_Suc)
qed

lemma download_loop_stores:
  "download_loop cfg env i dl w = (Inr (), w') \<Longrightarrow> j < length dl \<Longrightarrow>
     \<exists>body. retrieve_outcome env (i + j) (dl ! j) = Fetched body
       \<and> ((\<forall>j'. j < j' \<and> j' < length dl \<longrightarrow> target cfg (dl ! j') \<noteq> target cfg (dl ! j))
            \<longrightarrow> files w' (target cfg (dl ! j)) = Some body)"
proof (induction dl arbitrary: i w j)
  case Nil
  then show ?case by simp
next
  case (Cons f fs)
  obtain r1 w1 where step: "urlretrieve env i f (target cfg f) w = (r1, w1)"
    by (cases "urlretrieve env i f (target cfg f) w")
  with Cons.prems(1) obtain x where r1: "r1 = Inr x"
    and rest: "download_loop cfg env (Suc i) fs (emit (Print (Success f)) w1) = (Inr (), w')"
    by (auto split: sum.splits)
  show ?case
  proof (cases j)
    case 0
    from urlretrieve_success[OF step[unfolded r1]] obtain body where
      body: "retrieve_outcome env i f = Fetched body" "files w1 (target cfg f) = Some body"
      by blast
    have "files w' (target cfg f) = Some body"
      if "\<forall>j'. 0 < j' \<and> j' < length (f # fs) \<longrightarrow> target cfg ((f # fs) ! j') \<noteq> target cfg f"
    proof -
      from that have "\<forall>j<length fs. target cfg (fs ! j) \<noteq> target cfg f"
        by auto
      from download_loop_untouched[OF rest this] body(2) show ?thesis by simp
    qed
    with body(1) 0 show ?thesis by auto
  next
    case (Suc j0)
    with Cons.prems(2) have "j0 < length fs" by simp
    from Cons.IH[OF rest this] obtain body where
      b: "retrieve_outcome env (Suc i + j0) (fs ! j0) = Fetched body"
      "(\<forall>j'. j0 < j' \<and> j' < length fs \<longrightarrow> target cfg (fs ! j') \<noteq> target cfg (fs ! j0))
         \<longrightarrow> files w' (target cfg (fs ! j0)) = Some body"
      by blast
    have "files w' (target cfg (fs ! j0)) = Some body"
      if h: "\<forall>j'. Suc j0 < j' \<and> j' < length (f # fs)
               \<longrightarrow> target cfg ((f # fs) ! j') \<noteq> target cfg ((f # fs) ! Suc j0)"
    proof -
      have "\<forall>j'. j0 < j' \<and> j' < length fs \<longrightarrow> target cfg (fs ! j') \<noteq> target cfg (fs ! j0)"
      proof (intro allI impI)
        fix j' assume "j0 < j' \<and> j' < length fs"
        with h[rule_format, of "Suc j'"] show "target cfg (fs ! j') \<noteq> target cfg (fs ! j0)"
          by simp
      qed
      with b(2) show ?thesis by blast
    qed
    with b(1) Suc show ?thesis by auto
  qed
qed

lemma download_loop_failure:
  "download_loop cfg env i dl w = (Inl e, w') \<Longrightarrow>
     \<exists>n w1 w2. n < length dl
       \<and> download_loop cfg env i (take n dl) w = (Inr (), w1)
       \<and> urlretrieve env (i + n) (dl ! n) (target cfg (dl ! n)) w1 = (Inl e, w2)
       \<and> w' = emit (Print (Failure (dl ! n) e)) w2"
proof (induction dl arbitrary: i w)
  case Nil
  then show ?case by simp
next
  case (Cons f fs)
  obtain r1 w1 where step: "urlretrieve env i f (target cfg f) w = (r1, w1)"
    by (cases "urlretrieve env i f (target cfg f) w")
  show ?case
  proof (cases r1)
    case (Inl e1)
    with Cons.prems step have "e1 = e" "w' = emit (Print (Failure f e)) w1"
      by auto
    with step Inl show ?thesis
      by (intro exI[of _ 0] exI[of _ w] exI[of _ w1]) simp
  next
    case (Inr x)
    with Cons.prems step
    have rest: "download_loop cfg env (Suc i) fs (emit (Print (Success f)) w1) = (Inl e, w')"
      by auto
    from Cons.IH[OF rest] obtain n wa wb where
      n: "n < length fs"
      "download_loop cfg env (Suc i) (take n fs) (emit (Print (Success f)) w1) = (Inr (), wa)"
      "urlretrieve env (Suc i + n) (fs ! n) (target cfg (fs ! n)) wa = (Inl e, wb)"
      "w' = emit (Print (Failure (fs ! n) e)) wb"
      by blast
    with step Inr show ?thesis
      by (intro exI[of _ "Suc n"] exI[of _ wa] exI[of _ wb]) simp
  qed
qed


subsection \<open>The run, case by case\<close>

lemma resolve_watermark_fields:
  "files (snd (resolve_watermark cfg w)) = files w"
  "clock (snd (resolve_watermark cfg w)) = clock w"
  "dirs (snd (resolve_watermark cfg w)) = insert (data cfg) (dirs w)"
  by (auto simp: resolve_watermark_def read_update_def Let_def split: option.splits)

lemma resolve_watermark_log:
  "\<exists>evs. trace (snd (resolve_watermark cfg w)) = trace w @ evs
      \<and> opens evs = [] \<and> retrievals evs = [] \<and> writes evs = []"
  by (auto simp: resolve_watermark_def read_update_def Let_def split: option.splits)


lemma world_at_query_fields:
  "files (world_at_query cfg env w) = files w"
  "clock (world_at_query cfg env w) = capture_time env w"
  "dirs (world_at_query cfg env w) = insert (data cfg) (dirs w)"
  by (simp_all add: world_at_query_def resolve_watermark_fields capture_time_def)

lemma world_at_query_log:
  "\<exists>evs. trace (world_at_query cfg env w) = trace w @ evs
      \<and> opens evs = [request_url cfg w] \<and> retrievals evs = [] \<and> writes evs = []"
proof -
  from resolve_watermark_log[of cfg w] obtain evs where
    "trace (snd (resolve_watermark cfg w)) = trace w @ evs"
    "opens evs = []" "retrievals evs = []" "writes evs = []"
    by blast
  then show ?thesis
    by (intro exI[of _ "evs @ [Print (SearchUrl (request_url cfg w)), UrlOpen (request_url cfg w)]"])
       (simp add: world_at_query_def)
qed


lemma world_at_selection_fields:
  "files (world_at_selection cfg env res w) = files w"
  "clock (world_at_selection cfg env res w) = capture_time env w"
  "dirs (world_at_selection cfg env res w) = insert (data cfg) (dirs w)"
  by (simp_all add: world_at_selection_def world_at_query_fields)

lemma world_at_selection_log:
  "\<exists>evs. trace (world_at_selection cfg env res w) = trace w @ evs
      \<and> opens evs = [request_url cfg w] \<and> retrievals evs = [] \<and> writes evs = []"
proof -
  from world_at_query_log[of cfg env w] obtain evs where
    evs: "trace (world_at_query cfg env w) = trace w @ evs"
    "opens evs = [request_url cfg w]" "retrievals evs = []" "writes evs = []"
    by blast
  show ?thesis
  proof (cases "items res")
    case Nil
    with evs show ?thesis
      by (intro exI[of _ "evs @ [Print (NewGranules (hits res) (ccid cfg)
                (fst (resolve_watermark cfg w)))]"])
         (simp add: world_at_selection_def print_first_record_def)
  next
    case (Cons g gs)
    with evs show ?thesis
      by (intro exI[of _ "evs @ [Print (NewGranules (hits res) (ccid cfg)
                (fst (resolve_watermark cfg w))), Print (FirstRecord g)]"])
         (simp add: world_at_selection_def print_first_record_def)
  qed
qed


lemma run_cases [consumes 1, case_names query_failed selection_failed download_failed completed]:
  assumes "run cfg env w = (r, w')"
  obtains
    (query_failed) e where
      "catalog_response env (request_url cfg w) = Inl e"
      "r = Inl e" "w' = world_at_query cfg env w"
  | (selection_failed) res e where
      "catalog_response env (request_url cfg w) = Inr res"
      "select_downloads (items res) = Inl e"
      "r = Inl e" "w' = world_at_selection cfg env res w"
  | (download_failed) res dl e where
      "catalog_response env (request_url cfg w) = Inr res"
      "select_downloads (items res) = Inr dl"
      "download_loop cfg env 0 dl (world_at_selection cfg env res w) = (Inl e, w')"
      "r = Inl e"
  | (completed) res dl w4 where
      "catalog_response env (request_url cfg w) = Inr res"
      "select_downloads (items res) = Inr dl"
      "download_loop cfg env 0 dl (world_at_selection cfg env res w) = (Inr (), w4)"
      "r = Inr \<lparr>timestamp = strftime (capture_time env w), results = res, downloads = dl\<rparr>"
      "w' = write_update cfg res (strftime (capture_time env w)) w4"
proof (cases "catalog_response env (request_url cfg w)")
  case (Inl e)
  with assms have "r = Inl e" "w' = world_at_query cfg env w"
    by (auto simp: run_def query_catalog_def world_at_query_def request_url_def Let_def
             split: prod.splits)
  with Inl show ?thesis by (rule query_failed)
next
  case (Inr res)
  let ?w3 = "world_at_selection cfg env res w"
  have q: "query_catalog cfg env (request_url cfg w) (fst (resolve_watermark cfg w))
             (emit (Print (SearchUrl (request_url cfg w))) (snd (resolve_watermark cfg w)))
           = (Inr (res, strftime (capture_time env w)),
              emit (Print (NewGranules (hits res) (ccid cfg) (fst (resolve_watermark cfg w))))
                (world_at_query cfg env w))"
    using Inr
    by (simp add: query_catalog_def world_at_query_def Let_def utcnow_def capture_time_def
                  resolve_watermark_fields)
  show ?thesis
  proof (cases "select_downloads (items res)")
    case (Inl e)
    with assms q have "r = Inl e" "w' = ?w3"
      by (auto simp: run_def request_url_def world_at_selection_def Let_def split: prod.splits)
    with Inr Inl show ?thesis by (rule selection_failed)
  next
    case dl: (Inr dl)
    obtain r4 w4 where loop: "download_loop cfg env 0 dl ?w3 = (r4, w4)"
      by (cases "download_loop cfg env 0 dl ?w3")
    show ?thesis
    proof (cases r4)
      case (Inl e)
      with assms q dl loop have "r = Inl e" "w' = w4"
        by (auto simp: run_def request_url_def world_at_selection_def Let_def split: prod.splits)
      with Inr dl loop Inl show ?thesis by (auto intro: download_failed)
    next
      case ok: (Inr u)
      with assms q dl loop have
        "r = Inr \<lparr>timestamp = strftime (capture_time env w), results = res, downloads = dl\<rparr>"
        "w' = write_update cfg res (strftime (capture_time env w)) w4"
        by (auto simp: run_def request_url_def world_at_selection_def Let_def split: prod.splits)
      with Inr dl loop ok show ?thesis by (auto intro: completed)
    qed
  qed
qed

lemma events_of_runI:
  "run cfg env w = (r, w') \<Longrightarrow> trace w' = trace w @ evs \<Longrightarrow> events_of_run cfg env w = evs"
  by (simp add: events_of_run_def)

text \<open>What a whole run logs, by the way it ended.\<close>

lemma run_log:
  assumes "run cfg env w = (r, w')"
  shows "\<exists>k planned.
           opens (events_of_run cfg env w) = [request_url cfg w]
         \<and> retrievals (events_of_run cfg env w) = map (\<lambda>u. (u, target cfg u)) (take k planned)
         \<and> planned = (case catalog_response env (request_url cfg w) of
                         Inl e \<Rightarrow> []
                       | Inr res \<Rightarrow> (case select_downloads (items res) of
                                      Inl e \<Rightarrow> [] | Inr dl \<Rightarrow> dl))
         \<and> (\<forall>v. r = Inr v \<longrightarrow> k = length planned \<and> downloads v = planned
                 \<and> catalog_response env (request_url cfg w) = Inr (results v)
                 \<and> timestamp v = strftime (capture_time env w)
                 \<and> writes (events_of_run cfg env w) =
                     (if items (results v) = [] then [] else [(update_path cfg, timestamp v)]))
         \<and> (\<forall>e. r = Inl e \<longrightarrow> writes (events_of_run cfg env w) = [])"
  using assms
proof (cases rule: run_cases)
  case (query_failed e)
  from world_at_query_log[of cfg env w] obtain evs where
    evs: "trace (world_at_query cfg env w) = trace w @ evs"
    "opens evs = [request_url cfg w]" "retrievals evs = []" "writes evs = []"
    by blast
  with query_failed assms have "events_of_run cfg env w = evs"
    by (intro events_of_runI) auto
  with evs query_failed show ?thesis
    by (intro exI[of _ 0]) simp
next
  case (selection_failed res e)
  from world_at_selection_log[of cfg env res w] obtain evs where
    evs: "trace (world_at_selection cfg env res w) = trace w @ evs"
    "opens evs = [request_url cfg w]" "retrievals evs = []" "writes evs = []"
    by blast
  with selection_failed assms have "events_of_run cfg env w = evs"
    by (intro events_of_runI) auto
  with evs selection_failed show ?thesis
    by (intro exI[of _ 0]) simp
next
  case (download_failed res dl e)
  from world_at_selection_log[of cfg env res w] obtain evs where
    evs: "trace (world_at_selection cfg env res w) = trace w @ evs"
    "opens evs = [request_url cfg w]" "retrievals evs = []" "writes evs = []"
    by blast
  from download_loop_log[OF download_failed(3)] obtain k evs2 where
    evs2: "trace w' = trace (world_at_selection cfg env res w) @ evs2" "k \<le> length dl"
    "retrievals evs2 = map (\<lambda>u. (u, target cfg u)) (take k dl)"
    "opens evs2 = []" "writes evs2 = []"
    by blast
  with evs assms have "events_of_run cfg env w = evs @ evs2"
    by (intro events_of_runI) auto
  with evs evs2 download_failed show ?thesis
    by (intro exI[of _ k]) simp
next
  case (completed res dl w4)
  from world_at_selection_log[of cfg env res w] obtain evs where
    evs: "trace (world_at_selection cfg env res w) = trace w @ evs"
    "opens evs = [request_url cfg w]" "retrievals evs = []" "writes evs = []"
    by blast
  from download_loop_log[OF completed(3)] obtain k evs2 where
    evs2: "trace w4 = trace (world_at_selection cfg env res w) @ evs2" "k = length dl"
    "retrievals evs2 = map (\<lambda>u. (u, target cfg u)) (take k dl)"
    "opens evs2 = []" "writes evs2 = []"
    by blast
  let ?wr = "if items res = [] then [] else [WriteFile (update_path cfg) (strftime (capture_time env w))]"
  from evs evs2 completed have "trace w' = trace w @ (evs @ evs2 @ ?wr)"
    by (simp add: write_update_effect)
  with assms have "events_of_run cfg env w = evs @ evs2 @ ?wr"
    by (intro events_of_runI)
  with evs evs2 completed show ?thesis
    by (intro exI[of _ k]) simp
qed


lemma run_opens: "opens (events_of_run cfg env w) = [request_url cfg w]"
proof -
  obtain r w' where "run cfg env w = (r, w')"
    by (cases "run cfg env w")
  from run_log[OF this] show ?thesis by blast
qed

lemma run_dirs: "dirs (snd (run cfg env w)) = insert (data cfg) (dirs w)"
proof -
  obtain r w' where run: "run cfg env w = (r, w')"
    by (cases "run cfg env w")
  then have "dirs w' = insert (data cfg) (dirs w)"
  proof (cases rule: run_cases)
    case (download_failed res dl e)
    from download_loop_dirs[OF download_failed(3)] show ?thesis
      by (simp add: world_at_selection_fields)
  next
    case (completed res dl w4)
    from download_loop_dirs[OF completed(3)] completed(5) show ?thesis
      by (simp add: world_at_selection_fields write_update_effect)
  qed (simp_all add: world_at_query_fields world_at_selection_fields)
  with run show ?thesis by simp
qed

lemma run_completed_watermark:
  assumes "run cfg env w = (Inr v, w')"
  shows "files w' (update_path cfg) =
           (if items (results v) = [] then files w (update_path cfg)
            else Some (strftime (capture_time env w)))"
  using assms
proof (cases rule: run_cases)
  case (completed res dl w4)
  show ?thesis
  proof (cases "items res = []")
    case True
    with completed(2) have "dl = []" by simp
    with completed True show ?thesis
      by (auto simp: write_update_effect world_at_selection_fields)
  next
    case False
    with completed show ?thesis by (simp add: write_update_effect)
  qed
qed simp_all



lemma watermark_clock [simp]: "watermark cfg (w\<lparr>clock := t\<rparr>) = watermark cfg w"
  by (simp add: watermark_def)

lemma watermark_step:
  assumes "\<not> isl (fst (run cfg env w))"
    and "fst (resolve_watermark cfg w) \<le> strftime (capture_time env w)"
  shows "watermark cfg w \<le> watermark cfg (snd (run cfg env w))"
proof -
  from assms(1) obtain v w' where run: "run cfg env w = (Inr v, w')"
    by (cases "run cfg env w"; cases "fst (run cfg env w)") auto
  have dirs': "data cfg \<in> dirs w'"
    using run_dirs[of cfg env w] run by simp
  note fin = run_completed_watermark[OF run]
  show ?thesis
  proof (cases "watermark cfg w")
    case None
    then show ?thesis by simp
  next
    case (Some c)
    then have d: "data cfg \<in> dirs w" and f: "files w (update_path cfg) = Some c"
      by (auto simp: watermark_def split: if_splits)
    then have "fst (resolve_watermark cfg w) = c"
      by (simp add: resolve_watermark_def read_update_def)
    with assms(2) have "c \<le> strftime (capture_time env w)" by simp
    with fin f d dirs' run show ?thesis
      by (simp add: watermark_def)
  qed
qed

subsection \<open>Evaluating the concrete runs\<close>

text \<open>
  The formatted timestamps of the instants the concrete runs meet are computed once, and
  the fields of the concrete parameters and environments are given as equations, so that
  a run on a concrete world evaluates by rewriting.
\<close>

lemma strftime_examples:
  "strftime 63734662630500000 = ''2020-09-02T16:57:10Z''"
  "strftime 63734661430500000 = ''2020-09-02T16:37:10Z''"
  "strftime 63734662633250000 = ''2020-09-02T16:57:13Z''"
  by code_simp+

lemma strftime_examples_later:
  "strftime 63734666233250000 = ''2020-09-02T17:57:13Z''"
  "strftime 63734669833250000 = ''2020-09-02T18:57:13Z''"
  by code_simp+

lemma nb_cfg_fields:
  "mins nb_cfg = 20" "cmr nb_cfg = ''cmr.uat.earthdata.nasa.gov''"
  "ccid nb_cfg = ''C1234724471-POCLOUD''" "data nb_cfg = ''resources/nrt''"
  by (simp_all add: nb_cfg_def)

lemma nb_env_fields:
  "catalog_response nb_env url = Inr \<lparr>hits = 2, items = [granule_a, granule_b]\<rparr>"
  "catalog_latency nb_env = 2750000"
  "retrieve_outcome nb_env i url = Fetched (''netcdf:'' @ url)"
  "retrieve_latency nb_env i url = 4000000"
  by (simp_all add: nb_env_def)

lemma clobber_env_fields:
  "catalog_response clobber_env url = Inr \<lparr>hits = 2, items = [granule_u, granule_b]\<rparr>"
  "catalog_latency clobber_env = 2750000"
  "retrieve_outcome clobber_env i url = (if i = 0 then Fetched ''netcdf bytes'' else Refused (HTTPError 503))"
  "retrieve_latency clobber_env i url = 4000000"
  by (simp_all add: clobber_env_def)

lemma refusing_env_fields:
  "catalog_response refusing_env url = Inr \<lparr>hits = 2, items = [granule_a, granule_b]\<rparr>"
  "catalog_latency refusing_env = 2750000"
  "retrieve_outcome refusing_env i url =
     (if i = 0 then Fetched (''netcdf:'' @ url) else Refused (HTTPError 503))"
  "retrieve_latency refusing_env i url = 4000000"
  by (simp_all add: refusing_env_def)

lemma missing_link_env_fields:
  "catalog_response missing_link_env url = Inr \<lparr>hits = 2, items = [granule_b, granule_n]\<rparr>"
  by (simp add: missing_link_env_def)

lemma many_hits_env_fields:
  "catalog_response many_hits_env url = Inr \<lparr>hits = 5000, items = [granule_a, granule_b]\<rparr>"
  "catalog_latency many_hits_env = 2750000"
  "retrieve_outcome many_hits_env i url = Fetched (''netcdf:'' @ url)"
  "retrieve_latency many_hits_env i url = 4000000"
  by (simp_all add: many_hits_env_def)

lemma quiet_env_fields:
  "catalog_response quiet_env url = Inr \<lparr>hits = 0, items = []\<rparr>"
  "catalog_latency quiet_env = 2750000"
  by (simp_all add: quiet_env_def)

lemma flaky_env_fields:
  "retrieve_outcome flaky_env i url =
     (if i = 0 then Fetched (''netcdf:'' @ url) else Truncated ''netc'' ContentTooShortError)"
  "retrieve_latency flaky_env i url = 4000000"
  by (simp_all add: flaky_env_def)

lemma granule_fields:
  "get_data_urls granule_a = [''https://archive.test/protected/a.nc'', ''https://mirror.test/protected/a2.nc'']"
  "get_data_urls granule_b = [''https://archive.test/protected/b.nc'']"
  "get_data_urls granule_u = [''https://archive.test/protected/.update'']"
  by (simp_all add: get_data_urls_def granule_a_def granule_b_def granule_u_def link_def)

lemmas run_eval = run_def resolve_watermark_def default_timestamp_def read_update_def
  update_path_def query_catalog_def print_first_record_def select_url_def urlretrieve_def
  target_def basename_def names_a_directory_def write_update_def emit_def elapse_def utcnow_def
  timedelta_minutes_def Let_def strftime_examples nb_cfg_fields granule_fields

lemma nb_run: "run nb_cfg nb_env nb_world = (Inr nb_vars, nb_final)"
  by (simp add: run_eval nb_env_fields nb_world_def nb_vars_def nb_final_def)

lemma nb_events: "events_of_run nb_cfg nb_env nb_world = trace nb_final"
  by (simp add: events_of_run_def nb_run) (simp add: nb_world_def)

section \<open>C1: when the watermark file is overwritten\<close>

text \<open>
  C1 as stated: the watermark file \<^verbatim>\<open>{data}/.update\<close> is overwritten with the candidate
  timestamp if and only if the result set is non-empty and no download failed; in every
  other case its contents are unchanged from before the run.

  The download loop writes to \<^verbatim>\<open>{data}/{basename(f)}\<close> and nothing keeps that path apart
  from \<^verbatim>\<open>{data}/.update\<close>. In the run below the first granule's download link ends in
  \<^verbatim>\<open>/.update\<close>; that download succeeds, the second one is refused with HTTP 503, the run
  ends with the exception, and the watermark file now holds the downloaded bytes.
\<close>

theorem watermark_clobbered_by_download:
  "fst (run nb_cfg clobber_env nb_world) = Inl (HTTPError 503)
   \<and> retrievals (events_of_run nb_cfg clobber_env nb_world) =
        [(''https://archive.test/protected/.update'', ''resources/nrt/.update''),
         (''https://archive.test/protected/b.nc'', ''resources/nrt/b.nc'')]
   \<and> files nb_world (update_path nb_cfg) = Some ''2020-09-02T16:46:32Z''
   \<and> files (snd (run nb_cfg clobber_env nb_world)) (update_path nb_cfg) = Some ''netcdf bytes''"
  by (simp add: events_of_run_def) (simp add: run_eval clobber_env_fields nb_world_def)

text \<open>
  C1, amended: for every run in which no download was directed at the watermark file's
  own path, the file holds the candidate timestamp (and the run's only file write through
  the last cell is that one) when the run completed with a non-empty result set, and in
  every other case (the query failed, a selection failed, a download failed, or the
  result set was empty) the file's contents are unchanged and the last cell wrote nothing.
\<close>

theorem watermark_written_iff_run_completes:
  assumes "run cfg env w = (r, w')"
    and "update_path cfg \<notin> snd ` set (retrievals (events_of_run cfg env w))"
  shows "(\<forall>v. r = Inr v \<and> items (results v) \<noteq> [] \<longrightarrow>
            files w' (update_path cfg) = Some (timestamp v)
          \<and> writes (events_of_run cfg env w) = [(update_path cfg, timestamp v)])
       \<and> ((\<forall>v. r = Inr v \<longrightarrow> items (results v) = []) \<longrightarrow>
            files w' (update_path cfg) = files w (update_path cfg)
          \<and> writes (events_of_run cfg env w) = [])"
proof -
  from run_log[OF assms(1)] have
    wr_ok: "\<And>v. r = Inr v \<Longrightarrow> writes (events_of_run cfg env w) =
              (if items (results v) = [] then [] else [(update_path cfg, timestamp v)])"
    and wr_err: "\<And>e. r = Inl e \<Longrightarrow> writes (events_of_run cfg env w) = []"
    by blast+
  have files: "files w' (update_path cfg) =
      (case r of Inl e \<Rightarrow> files w (update_path cfg)
       | Inr v \<Rightarrow> if items (results v) = [] then files w (update_path cfg)
                  else Some (timestamp v))"
    using assms(1)
  proof (cases rule: run_cases)
    case (query_failed e)
    then show ?thesis by (simp add: world_at_query_fields)
  next
    case (selection_failed res e)
    then show ?thesis by (simp add: world_at_selection_fields)
  next
    case (download_failed res dl e)
    from world_at_selection_log[of cfg env res w] obtain evs where
      evs: "trace (world_at_selection cfg env res w) = trace w @ evs"
      by blast
    from download_loop_log[OF download_failed(3)] obtain evs2 where
      evs2: "trace w' = trace (world_at_selection cfg env res w) @ evs2"
      by blast
    with evs assms(1) have "events_of_run cfg env w = evs @ evs2"
      by (intro events_of_runI) auto
    with assms(2) have "\<forall>u. (u, update_path cfg) \<notin> set (retrievals evs2)"
      by force
    from download_loop_frame[OF download_failed(3) evs2 this] download_failed(4)
    show ?thesis by (simp add: world_at_selection_fields)
  next
    case (completed res dl w4)
    show ?thesis
    proof (cases "items res = []")
      case True
      with completed(2) have "dl = []" by simp
      with completed True show ?thesis
        by (auto simp: write_update_effect world_at_selection_fields)
    next
      case False
      with completed show ?thesis by (simp add: write_update_effect)
    qed
  qed
  show ?thesis
  proof (cases r)
    case (Inl e)
    with files wr_err show ?thesis by simp
  next
    case (Inr v)
    with files wr_ok[OF Inr] show ?thesis by auto
  qed
qed

theorem watermark_written_iff_run_completes_witness:
  "update_path nb_cfg \<notin> snd ` set (retrievals (events_of_run nb_cfg nb_env nb_world))
   \<and> files nb_final (update_path nb_cfg) = Some ''2020-09-02T16:57:13Z''
   \<and> writes (events_of_run nb_cfg nb_env nb_world) =
        [(''resources/nrt/.update'', ''2020-09-02T16:57:13Z'')]
   \<and> update_path nb_cfg \<notin> snd ` set (retrievals (events_of_run nb_cfg refusing_env nb_world))
   \<and> fst (run nb_cfg refusing_env nb_world) = Inl (HTTPError 503)
   \<and> files (snd (run nb_cfg refusing_env nb_world)) ''resources/nrt/a.nc''
        = Some ''netcdf:https://archive.test/protected/a.nc''
   \<and> files (snd (run nb_cfg refusing_env nb_world)) (update_path nb_cfg)
        = Some ''2020-09-02T16:46:32Z''
   \<and> writes (events_of_run nb_cfg refusing_env nb_world) = []"
proof -
  have h: "update_path nb_cfg \<notin> snd ` set (retrievals (events_of_run nb_cfg nb_env nb_world))"
    by (simp add: nb_events) (simp add: nb_final_def update_path_def nb_cfg_fields)
  have r: "fst (run nb_cfg refusing_env nb_world) = Inl (HTTPError 503)"
    "files (snd (run nb_cfg refusing_env nb_world)) ''resources/nrt/a.nc''
        = Some ''netcdf:https://archive.test/protected/a.nc''"
    "files nb_world (update_path nb_cfg) = Some ''2020-09-02T16:46:32Z''"
    by (simp_all add: run_eval refusing_env_fields nb_world_def)
  have h2: "update_path nb_cfg
              \<notin> snd ` set (retrievals (events_of_run nb_cfg refusing_env nb_world))"
    by (simp add: events_of_run_def) (simp add: run_eval refusing_env_fields nb_world_def)
  have eq: "run nb_cfg refusing_env nb_world
              = (Inl (HTTPError 503), snd (run nb_cfg refusing_env nb_world))"
    by (simp add: prod_eq_iff r(1))
  from watermark_written_iff_run_completes[OF nb_run h]
       watermark_written_iff_run_completes[OF eq h2] h h2 r
  show ?thesis
    by (simp add: nb_vars_def update_path_def nb_cfg_fields)
qed

section \<open>C2: the watermark never goes back\<close>

text \<open>
  C2: across any sequence of successful runs in each of which the captured time, as
  formatted, is not below the watermark that run read, the stored watermark is
  non-decreasing from one run to the next. Watermarks are compared as the strings they
  are, in lexicographic order; for the fixed-width format \<^verbatim>\<open>YYYY-MM-DDThh:mm:ssZ\<close> this
  is the order of the instants. A directory without a watermark file counts as below
  every watermark.
\<close>

theorem watermark_monotone:
  assumes "successful_runs cfg sched w"
  shows "sorted (map (watermark cfg) (w # worlds_after cfg sched w))"
  using assms
proof (induction sched arbitrary: w)
  case Nil
  then show ?case by simp
next
  case (Cons a sched)
  obtain t env where a: "a = (t, env)" by (cases a)
  let ?w' = "snd (run cfg env (w\<lparr>clock := t\<rparr>))"
  from Cons.prems a have ok: "\<not> isl (fst (run cfg env (w\<lparr>clock := t\<rparr>)))"
    "fst (resolve_watermark cfg (w\<lparr>clock := t\<rparr>))
          \<le> strftime (capture_time env (w\<lparr>clock := t\<rparr>))"
    "successful_runs cfg sched ?w'"
    by simp_all
  from watermark_step[OF ok(1,2)] have step: "watermark cfg w \<le> watermark cfg ?w'"
    by simp
  from Cons.IH[OF ok(3)] have "sorted (map (watermark cfg) (?w' # worlds_after cfg sched ?w'))" .
  with step show ?case
    by (simp add: a Let_def) (auto intro: order_trans)
qed

theorem watermark_monotone_witness:
  "successful_runs nb_cfg three_runs nb_world
   \<and> map (watermark nb_cfg) (nb_world # worlds_after nb_cfg three_runs nb_world) =
        [Some ''2020-09-02T16:46:32Z'', Some ''2020-09-02T16:57:13Z'',
         Some ''2020-09-02T16:57:13Z'', Some ''2020-09-02T18:57:13Z'']
   \<and> sorted (map (watermark nb_cfg) (nb_world # worlds_after nb_cfg three_runs nb_world))"
proof -
  have ok: "successful_runs nb_cfg three_runs nb_world"
    by (simp add: three_runs_def capture_time_def run_eval nb_env_fields quiet_env_fields
          nb_world_def strftime_examples_later)
  have ws: "map (watermark nb_cfg) (nb_world # worlds_after nb_cfg three_runs nb_world) =
        [Some ''2020-09-02T16:46:32Z'', Some ''2020-09-02T16:57:13Z'',
         Some ''2020-09-02T16:57:13Z'', Some ''2020-09-02T18:57:13Z'']"
    by (simp add: three_runs_def watermark_def run_eval nb_env_fields quiet_env_fields
          nb_world_def strftime_examples_later)
  from watermark_monotone[OF ok] ok ws show ?thesis
    by simp
qed

section \<open>C3: the timestamp that is persisted\<close>

text \<open>
  C3: the candidate timestamp of a completed run is the UTC time read right after the
  catalog request returned, \<open>capture_time\<close>: the clock at the start of the run plus the
  time the request took. It is not the time before the request (\<open>clock w\<close>) and it is
  not read again after the downloads (the clock of the final world is later by the time
  the downloads took); the last cell writes exactly this value.
\<close>

theorem candidate_timestamp_captured_after_query:
  assumes "run cfg env w = (Inr v, w')"
  shows "timestamp v = strftime (capture_time env w)
       \<and> clock w' = capture_time env w + int (download_time env (downloads v))
       \<and> (items (results v) \<noteq> [] \<longrightarrow>
            files w' (update_path cfg) = Some (strftime (capture_time env w))
          \<and> writes (events_of_run cfg env w) = [(update_path cfg, strftime (capture_time env w))])"
  using assms
proof (cases rule: run_cases)
  case (completed res dl w4)
  from download_loop_clock[OF completed(3)]
  have "clock w' = capture_time env w + int (download_time env dl)"
    by (simp add: completed(5) write_update_effect world_at_selection_fields download_time_def)
  moreover from run_log[OF assms] have
    "writes (events_of_run cfg env w) =
       (if items (results v) = [] then [] else [(update_path cfg, timestamp v)])"
    by blast
  ultimately show ?thesis using completed
    by (auto simp: write_update_effect)
qed simp_all

theorem candidate_timestamp_captured_after_query_witness:
  "timestamp nb_vars = strftime (capture_time nb_env nb_world)
   \<and> files nb_final (update_path nb_cfg) = Some ''2020-09-02T16:57:13Z''
   \<and> strftime (clock nb_world) = ''2020-09-02T16:57:10Z''
   \<and> strftime (capture_time nb_env nb_world) = ''2020-09-02T16:57:13Z''
   \<and> strftime (clock nb_final) = ''2020-09-02T16:57:21Z''"
proof -
  have "strftime 63734662641250000 = ''2020-09-02T16:57:21Z''"
    by code_simp
  then have "strftime (clock nb_world) = ''2020-09-02T16:57:10Z''"
    "strftime (capture_time nb_env nb_world) = ''2020-09-02T16:57:13Z''"
    "strftime (clock nb_final) = ''2020-09-02T16:57:21Z''"
    "items (results nb_vars) \<noteq> []"
    by (simp_all add: nb_world_def nb_final_def nb_vars_def capture_time_def nb_env_fields
          strftime_examples)
  with candidate_timestamp_captured_after_query[OF nb_run] show ?thesis
    by simp
qed

section \<open>C4: reading an existing watermark file\<close>




section \<open>C5: the default watermark of a first run\<close>



section \<open>C6: selecting the download link\<close>

text \<open>
  C6: for every granule record the selector returns the URL of the first related link, in
  list order, whose type is \<^verbatim>\<open>GET DATA\<close> (so the first of several matches), and fails
  (with Python's \<open>IndexError\<close>, the notebook's form of the missing-link failure) when no
  link matches. When any record of the result set has no such link the run ends with that
  failure before any download is attempted, and no file is touched.
\<close>

theorem selector_takes_first_get_data_link:
  "select_url r =
     (case find (\<lambda>u. Type u = ''GET DATA'') (RelatedUrls r) of
        None \<Rightarrow> Inl IndexError
      | Some u \<Rightarrow> Inr (URL u))
   \<and> (\<forall>pre u post. RelatedUrls r = pre @ u # post \<and> Type u = ''GET DATA''
          \<and> (\<forall>x\<in>set pre. Type x \<noteq> ''GET DATA'') \<longrightarrow> select_url r = Inr (URL u))
   \<and> ((\<forall>x\<in>set (RelatedUrls r). Type x \<noteq> ''GET DATA'') \<longrightarrow> select_url r = Inl IndexError)
   \<and> (catalog_response env (request_url cfg w) = Inr res \<and> r \<in> set (items res)
        \<and> (\<forall>x\<in>set (RelatedUrls r). Type x \<noteq> ''GET DATA'') \<longrightarrow>
          fst (run cfg env w) = Inl IndexError
        \<and> retrievals (events_of_run cfg env w) = []
        \<and> files (snd (run cfg env w)) = files w)"
proof (intro conjI allI impI)
  show "select_url r =
     (case find (\<lambda>u. Type u = ''GET DATA'') (RelatedUrls r) of
        None \<Rightarrow> Inl IndexError
      | Some u \<Rightarrow> Inr (URL u))"
    by (rule select_url_find)
next
  fix pre u post
  assume "RelatedUrls r = pre @ u # post \<and> Type u = ''GET DATA''
          \<and> (\<forall>x\<in>set pre. Type x \<noteq> ''GET DATA'')"
  then have "find (\<lambda>u. Type u = ''GET DATA'') (RelatedUrls r) = Some u"
    by (intro find_first[where pre = pre and post = post]) auto
  then show "select_url r = Inr (URL u)"
    by (simp add: select_url_find)
next
  assume "\<forall>x\<in>set (RelatedUrls r). Type x \<noteq> ''GET DATA''"
  then have "find (\<lambda>u. Type u = ''GET DATA'') (RelatedUrls r) = None"
    by (simp add: find_None_iff)
  then show "select_url r = Inl IndexError"
    by (simp add: select_url_find)
next
  assume a: "catalog_response env (request_url cfg w) = Inr res \<and> r \<in> set (items res)
        \<and> (\<forall>x\<in>set (RelatedUrls r). Type x \<noteq> ''GET DATA'')"
  then have "find (\<lambda>u. Type u = ''GET DATA'') (RelatedUrls r) = None"
    by (simp add: find_None_iff)
  then have "select_url r = Inl IndexError"
    by (simp add: select_url_find)
  with a have sel: "select_downloads (items res) = Inl IndexError"
    by (auto intro: select_downloads_fails)
  obtain r' w' where run: "run cfg env w = (r', w')"
    by (cases "run cfg env w")
  from run a sel have "r' = Inl IndexError \<and> w' = world_at_selection cfg env res w"
    by (cases rule: run_cases) auto
  moreover from world_at_selection_log[of cfg env res w] obtain evs where
    "trace (world_at_selection cfg env res w) = trace w @ evs" "retrievals evs = []"
    by blast
  moreover from this calculation run have "events_of_run cfg env w = evs"
    by (intro events_of_runI) auto
  ultimately show "fst (run cfg env w) = Inl IndexError"
    "retrievals (events_of_run cfg env w) = []"
    "files (snd (run cfg env w)) = files w"
    using run by (simp_all add: world_at_selection_fields)
qed

theorem selector_takes_first_get_data_link_witness:
  "RelatedUrls granule_a =
     [link ''EXTENDED METADATA'' ''https://archive.test/public/a.nc.md5'']
     @ link ''GET DATA'' ''https://archive.test/protected/a.nc''
     # [link ''GET DATA'' ''https://mirror.test/protected/a2.nc'',
        link ''VIEW RELATED INFORMATION'' ''https://archive.test/s3credentials'']
   \<and> select_url granule_a = Inr ''https://archive.test/protected/a.nc''
   \<and> find (\<lambda>u. Type u = ''GET DATA'') (RelatedUrls granule_n) = None
   \<and> select_url granule_n = Inl IndexError
   \<and> fst (run nb_cfg missing_link_env nb_world) = Inl IndexError
   \<and> retrievals (events_of_run nb_cfg missing_link_env nb_world) = []
   \<and> files (snd (run nb_cfg missing_link_env nb_world)) = files nb_world"
proof -
  have a: "RelatedUrls granule_a =
     [link ''EXTENDED METADATA'' ''https://archive.test/public/a.nc.md5'']
     @ link ''GET DATA'' ''https://archive.test/protected/a.nc''
     # [link ''GET DATA'' ''https://mirror.test/protected/a2.nc'',
        link ''VIEW RELATED INFORMATION'' ''https://archive.test/s3credentials'']"
    "Type (link ''GET DATA'' ''https://archive.test/protected/a.nc'') = ''GET DATA''"
    "\<forall>x\<in>set [link ''EXTENDED METADATA'' ''https://archive.test/public/a.nc.md5''].
       Type x \<noteq> ''GET DATA''"
    "URL (link ''GET DATA'' ''https://archive.test/protected/a.nc'')
       = ''https://archive.test/protected/a.nc''"
    by (simp_all add: granule_a_def link_def)
  have n: "\<forall>x\<in>set (RelatedUrls granule_n). Type x \<noteq> ''GET DATA''"
    "find (\<lambda>u. Type u = ''GET DATA'') (RelatedUrls granule_n) = None"
    by (simp_all add: granule_n_def link_def)
  have c: "catalog_response missing_link_env (request_url nb_cfg nb_world)
             = Inr \<lparr>hits = 2, items = [granule_b, granule_n]\<rparr>"
    "granule_n \<in> set (items \<lparr>hits = 2, items = [granule_b, granule_n]\<rparr>)"
    by (simp_all add: missing_link_env_fields)
  from selector_takes_first_get_data_link[of granule_a missing_link_env nb_cfg nb_world,
      THEN conjunct2, THEN conjunct1, rule_format, OF conjI[OF a(1) conjI[OF a(2) a(3)]]]
  have "select_url granule_a = Inr ''https://archive.test/protected/a.nc''"
    by (simp add: a(4))
  moreover
  from selector_takes_first_get_data_link[of granule_n missing_link_env nb_cfg nb_world
      "\<lparr>hits = 2, items = [granule_b, granule_n]\<rparr>"] n c
  have "select_url granule_n = Inl IndexError"
    "fst (run nb_cfg missing_link_env nb_world) = Inl IndexError"
    "retrievals (events_of_run nb_cfg missing_link_env nb_world) = []"
    "files (snd (run nb_cfg missing_link_env nb_world)) = files nb_world"
    by simp_all
  ultimately show ?thesis using a(1) n(2) by simp
qed

section \<open>C7: the search request\<close>

text \<open>
  C7: every run opens exactly one search URL, built from the resolved watermark:
  \<^verbatim>\<open>https://{cmr}/search/granules.umm_json?\<close> followed by the URL-encoded parameters
  \<^verbatim>\<open>scroll=true\<close>, \<^verbatim>\<open>page_size=2000\<close>, \<^verbatim>\<open>sort_key=-start_date\<close>, the configured collection
  identifier, the watermark as \<^verbatim>\<open>created_at\<close>, and the bounding box. The page size and
  the bounding box are the literals of the parameters cell of the notebook.
\<close>

theorem catalog_query_built_once:
  "opens (events_of_run cfg env w) = [search_url cfg (fst (resolve_watermark cfg w))]
   \<and> search_url cfg ts =
       ''https://'' @ cmr cfg @ ''/search/granules.umm_json?''
       @ ''scroll=true&page_size=2000&sort_key=-start_date''
       @ ''&collection_concept_id='' @ quote_plus (ccid cfg)
       @ ''&created_at='' @ quote_plus ts
       @ ''&bounding_box=-146.5%2C57.5%2C-146%2C58''"
  by (simp add: run_opens request_url_def search_url_def params_def urlencode_def
        quoted_literals str_param_PStr)

theorem catalog_query_built_once_witness:
  "opens (events_of_run nb_cfg nb_env nb_world) = [search_url nb_cfg ''2020-09-02T16:46:32Z'']
   \<and> search_url nb_cfg ''2020-09-02T16:46:32Z'' =
       ''https://cmr.uat.earthdata.nasa.gov/search/granules.umm_json?scroll=true&page_size=2000&sort_key=-start_date&collection_concept_id=C1234724471-POCLOUD&created_at=2020-09-02T16%3A46%3A32Z&bounding_box=-146.5%2C57.5%2C-146%2C58''"
proof -
  have q: "quote_plus ''C1234724471-POCLOUD'' = ''C1234724471-POCLOUD''"
    "quote_plus ''2020-09-02T16:46:32Z'' = ''2020-09-02T16%3A46%3A32Z''"
    by code_simp+
  have r: "fst (resolve_watermark nb_cfg nb_world) = ''2020-09-02T16:46:32Z''"
    by (simp add: resolve_watermark_def read_update_def update_path_def nb_cfg_fields nb_world_def)
  from catalog_query_built_once[of nb_cfg nb_env nb_world "''2020-09-02T16:46:32Z''"]
  show ?thesis
    by (simp add: q r nb_cfg_fields)
qed

section \<open>C8: one request, one page\<close>

text \<open>
  C8: a run opens the search URL exactly once and no other catalog URL, so no scroll or
  pagination request is ever made. The URLs it downloads are an initial part of the URLs
  selected from the items of that one response, all of them when the run completes, and
  never more than the response has items, whatever hit count the response reports.
\<close>

theorem single_catalog_request_first_page_only:
  "opens (events_of_run cfg env w) = [request_url cfg w]
   \<and> (\<exists>k. map fst (retrievals (events_of_run cfg env w)) = take k (first_page_urls cfg env w))
   \<and> (\<forall>v. fst (run cfg env w) = Inr v \<longrightarrow>
          catalog_response env (request_url cfg w) = Inr (results v)
        \<and> map select_url (items (results v)) = map Inr (downloads v)
        \<and> map fst (retrievals (events_of_run cfg env w)) = downloads v)
   \<and> (\<forall>res. catalog_response env (request_url cfg w) = Inr res \<longrightarrow>
          length (retrievals (events_of_run cfg env w)) \<le> length (items res))"
proof -
  obtain r w' where run: "run cfg env w = (r, w')"
    by (cases "run cfg env w")
  have len: "length (first_page_urls cfg env w) \<le> length (items res)"
    if "catalog_response env (request_url cfg w) = Inr res" for res
    using that
    by (auto simp: first_page_urls_def split: sum.splits dest: select_downloads_length)
  from run_log[OF run] obtain k where
    k: "retrievals (events_of_run cfg env w) =
          map (\<lambda>u. (u, target cfg u)) (take k (first_page_urls cfg env w))"
    and ok: "\<And>v. r = Inr v \<Longrightarrow> k = length (first_page_urls cfg env w)
                \<and> downloads v = first_page_urls cfg env w
                \<and> catalog_response env (request_url cfg w) = Inr (results v)"
    unfolding first_page_urls_def by blast
  from k have pre: "map fst (retrievals (events_of_run cfg env w)) = take k (first_page_urls cfg env w)"
    by (simp add: comp_def)
  have "map select_url (items (results v)) = map Inr (downloads v)
        \<and> map fst (retrievals (events_of_run cfg env w)) = downloads v
        \<and> catalog_response env (request_url cfg w) = Inr (results v)"
    if "r = Inr v" for v
  proof -
    from ok[OF that] have *: "k = length (first_page_urls cfg env w)"
      "downloads v = first_page_urls cfg env w"
      "catalog_response env (request_url cfg w) = Inr (results v)"
      by simp_all
    from run have "select_downloads (items (results v)) = Inr (downloads v)"
      by (cases rule: run_cases) (use that in auto)
    from select_downloads_map[OF this] pre * show ?thesis by simp
  qed
  moreover have "length (retrievals (events_of_run cfg env w)) \<le> length (items res)"
    if "catalog_response env (request_url cfg w) = Inr res" for res
    using len[OF that] k by simp
  ultimately show ?thesis using pre run
    by (auto simp: run_opens)
qed

theorem single_catalog_request_first_page_only_witness:
  "opens (events_of_run nb_cfg many_hits_env nb_world) = [request_url nb_cfg nb_world]
   \<and> catalog_response many_hits_env (request_url nb_cfg nb_world)
        = Inr \<lparr>hits = 5000, items = [granule_a, granule_b]\<rparr>
   \<and> map fst (retrievals (events_of_run nb_cfg many_hits_env nb_world)) =
        [''https://archive.test/protected/a.nc'', ''https://archive.test/protected/b.nc'']
   \<and> length (retrievals (events_of_run nb_cfg many_hits_env nb_world)) \<le> 2"
proof -
  have r: "fst (run nb_cfg many_hits_env nb_world) =
      Inr \<lparr>timestamp = ''2020-09-02T16:57:13Z'',
           results = \<lparr>hits = 5000, items = [granule_a, granule_b]\<rparr>,
           downloads = [''https://archive.test/protected/a.nc'',
                        ''https://archive.test/protected/b.nc'']\<rparr>"
    by (simp add: run_eval many_hits_env_fields nb_world_def)
  have c: "catalog_response many_hits_env (request_url nb_cfg nb_world)
        = Inr \<lparr>hits = 5000, items = [granule_a, granule_b]\<rparr>"
    by (simp add: many_hits_env_fields)
  from single_catalog_request_first_page_only[of nb_cfg many_hits_env nb_world] r c
  show ?thesis by simp
qed

section \<open>C9: the download loop\<close>

text \<open>
  C9: the loop calls \<^verbatim>\<open>urlretrieve\<close> for the URLs in list order, each to the path
  \<^verbatim>\<open>{data}/{basename(url)}\<close>, where the base name is what follows the last slash of the
  URL. When all succeed every URL was attempted. When one fails, at position \<open>n\<close>, the
  attempts are exactly those up to and including \<open>n\<close>, the final state is the state after
  the first \<open>n\<close> downloads followed by the failed call and the failure message, and
  nothing but the failed call's own target differs from the state after the first \<open>n\<close>
  downloads: nothing is removed or rolled back. Each completed download left the fetched
  body in its target file, replacing what was there, unless a later attempt of the loop
  wrote to the same name.
\<close>

theorem downloads_sequential_first_failure_aborts:
  assumes "download_loop cfg env i dl w = (r, w')"
  shows "\<exists>n evs.
      trace w' = trace w @ evs \<and> n \<le> length dl
    \<and> (r = Inr () \<longrightarrow> n = length dl
         \<and> retrievals evs = map (\<lambda>f. (f, data cfg @ ''/'' @ basename f)) dl)
    \<and> (\<forall>e. r = Inl e \<longrightarrow> n < length dl
         \<and> retrievals evs = map (\<lambda>f. (f, data cfg @ ''/'' @ basename f)) (take (Suc n) dl)
         \<and> (\<exists>w1 w2. download_loop cfg env i (take n dl) w = (Inr (), w1)
              \<and> urlretrieve env (i + n) (dl ! n) (data cfg @ ''/'' @ basename (dl ! n)) w1
                  = (Inl e, w2)
              \<and> w' = emit (Print (Failure (dl ! n) e)) w2
              \<and> (\<forall>p. p \<noteq> data cfg @ ''/'' @ basename (dl ! n) \<longrightarrow> files w' p = files w1 p)))
    \<and> (\<forall>j<n. \<exists>body. retrieve_outcome env (i + j) (dl ! j) = Fetched body
         \<and> ((\<forall>j'. j < j' \<and> j' < length (retrievals evs)
                \<longrightarrow> basename (dl ! j') \<noteq> basename (dl ! j))
              \<longrightarrow> files w' (data cfg @ ''/'' @ basename (dl ! j)) = Some body))
    \<and> (\<forall>f. CHR ''/'' \<notin> set (basename f))
    \<and> (\<forall>p s. CHR ''/'' \<notin> set s \<longrightarrow> basename (p @ ''/'' @ s) = s)"
proof -
  have bn: "\<forall>f. CHR ''/'' \<notin> set (basename f)"
    "\<forall>p s. CHR ''/'' \<notin> set s \<longrightarrow> basename (p @ ''/'' @ s) = s"
    using basename_no_slash basename_last_segment by blast+
  show ?thesis
proof (cases r)
  case (Inr u)
  then have r: "r = Inr ()" by simp
  from download_loop_log[OF assms] r obtain evs where
    evs: "trace w' = trace w @ evs"
    "retrievals evs = map (\<lambda>u. (u, target cfg u)) dl"
    by auto
  have "\<exists>body. retrieve_outcome env (i + j) (dl ! j) = Fetched body
         \<and> ((\<forall>j'. j < j' \<and> j' < length (retrievals evs)
                \<longrightarrow> basename (dl ! j') \<noteq> basename (dl ! j))
              \<longrightarrow> files w' (data cfg @ ''/'' @ basename (dl ! j)) = Some body)"
    if "j < length dl" for j
    using download_loop_stores[OF assms[unfolded r] that] evs(2)
    by (simp add: target_eq_iff) (simp add: target_def)
  with evs r bn show ?thesis
    by (intro exI[of _ "length dl"] exI[of _ evs]) (simp add: target_def)
next
  case (Inl e)
  from download_loop_failure[OF assms[unfolded Inl]] obtain n w1 w2 where
    n: "n < length dl"
    "download_loop cfg env i (take n dl) w = (Inr (), w1)"
    "urlretrieve env (i + n) (dl ! n) (target cfg (dl ! n)) w1 = (Inl e, w2)"
    "w' = emit (Print (Failure (dl ! n) e)) w2"
    by blast
  from download_loop_log[OF n(2)] n(1) obtain evs1 where
    evs1: "trace w1 = trace w @ evs1"
    "retrievals evs1 = map (\<lambda>u. (u, target cfg u)) (take n dl)"
    by auto
  let ?evs = "evs1 @ [UrlRetrieve (dl ! n) (target cfg (dl ! n)), Print (Failure (dl ! n) e)]"
  from evs1 n urlretrieve_effect(1)[OF n(3)] have tr: "trace w' = trace w @ ?evs"
    by simp
  from evs1(2) n(1) have re: "retrievals ?evs = map (\<lambda>u. (u, target cfg u)) (take (Suc n) dl)"
    by (simp add: take_Suc_conv_app_nth)
  have frame: "files w' p = files w1 p" if "p \<noteq> target cfg (dl ! n)" for p
    using urlretrieve_effect(4)[OF n(3) that] n(4) by simp
  have stored: "\<exists>body. retrieve_outcome env (i + j) (dl ! j) = Fetched body
         \<and> ((\<forall>j'. j < j' \<and> j' < length (retrievals ?evs)
                \<longrightarrow> basename (dl ! j') \<noteq> basename (dl ! j))
              \<longrightarrow> files w' (data cfg @ ''/'' @ basename (dl ! j)) = Some body)"
    if j: "j < n" for j
  proof -
    from j n(1) have jl: "j < length (take n dl)" by simp
    from download_loop_stores[OF n(2) jl] j obtain body where
      b: "retrieve_outcome env (i + j) (dl ! j) = Fetched body"
      "(\<forall>j'. j < j' \<and> j' < n \<longrightarrow> target cfg (dl ! j') \<noteq> target cfg (dl ! j))
         \<longrightarrow> files w1 (target cfg (dl ! j)) = Some body"
      using n(1) by auto
    have "files w' (target cfg (dl ! j)) = Some body"
      if h: "\<forall>j'. j < j' \<and> j' < Suc n \<longrightarrow> basename (dl ! j') \<noteq> basename (dl ! j)"
    proof -
      from h j have "target cfg (dl ! j) \<noteq> target cfg (dl ! n)"
        by (auto simp: target_eq_iff)
      moreover from h have "\<forall>j'. j < j' \<and> j' < n \<longrightarrow> target cfg (dl ! j') \<noteq> target cfg (dl ! j)"
        by (auto simp: target_eq_iff)
      ultimately show ?thesis using frame b(2) by simp
    qed
    with b(1) re n(1) show ?thesis
      by (auto simp: target_def)
  qed
  from n tr re frame stored Inl bn show ?thesis
    by (intro exI[of _ n] exI[of _ ?evs]) (auto simp: target_def)
qed
qed

theorem downloads_sequential_first_failure_aborts_witness:
  "fst (download_loop nb_cfg flaky_env 0 three_urls nb_world) = Inl ContentTooShortError
   \<and> retrievals (trace (snd (download_loop nb_cfg flaky_env 0 three_urls nb_world))) =
        [(''https://archive.test/protected/a.nc'', ''resources/nrt/a.nc''),
         (''https://archive.test/protected/b.nc'', ''resources/nrt/b.nc'')]
   \<and> files (snd (download_loop nb_cfg flaky_env 0 three_urls nb_world)) ''resources/nrt/a.nc''
        = Some ''netcdf:https://archive.test/protected/a.nc''
   \<and> files (snd (download_loop nb_cfg flaky_env 0 three_urls nb_world)) ''resources/nrt/b.nc''
        = Some ''netc''
   \<and> files (snd (download_loop nb_cfg flaky_env 0 three_urls nb_world)) ''resources/nrt/c.nc''
        = None
   \<and> (\<exists>n evs. trace (snd (download_loop nb_cfg flaky_env 0 three_urls nb_world))
                  = trace nb_world @ evs \<and> n < length three_urls
          \<and> retrievals evs = map (\<lambda>f. (f, data nb_cfg @ ''/'' @ basename f))
                                 (take (Suc n) three_urls))
   \<and> fst (download_loop nb_cfg nb_env 0 three_urls nb_world) = Inr ()
   \<and> (\<exists>evs. trace (snd (download_loop nb_cfg nb_env 0 three_urls nb_world))
                  = trace nb_world @ evs
          \<and> retrievals evs = map (\<lambda>f. (f, data nb_cfg @ ''/'' @ basename f)) three_urls)
   \<and> files (snd (download_loop nb_cfg nb_env 0 three_urls nb_world)) ''resources/nrt/c.nc''
        = Some ''netcdf:https://archive.test/protected/c.nc''"
proof -
  let ?out = "download_loop nb_cfg flaky_env 0 three_urls nb_world"
  let ?ok = "download_loop nb_cfg nb_env 0 three_urls nb_world"
  have r: "fst ?out = Inl ContentTooShortError"
    by (simp add: three_urls_def run_eval flaky_env_fields nb_world_def)
  have t: "retrievals (trace (snd ?out)) =
        [(''https://archive.test/protected/a.nc'', ''resources/nrt/a.nc''),
         (''https://archive.test/protected/b.nc'', ''resources/nrt/b.nc'')]"
    by (simp add: three_urls_def run_eval flaky_env_fields nb_world_def)
  have f: "files (snd ?out) ''resources/nrt/a.nc'' = Some ''netcdf:https://archive.test/protected/a.nc''"
    "files (snd ?out) ''resources/nrt/b.nc'' = Some ''netc''"
    "files (snd ?out) ''resources/nrt/c.nc'' = None"
    by (simp_all add: three_urls_def run_eval flaky_env_fields nb_world_def)
  have eq: "?out = (Inl ContentTooShortError, snd ?out)"
    by (simp add: prod_eq_iff r)
  from downloads_sequential_first_failure_aborts[OF eq]
  have a: "\<exists>n evs. trace (snd ?out) = trace nb_world @ evs \<and> n < length three_urls
          \<and> retrievals evs = map (\<lambda>f. (f, data nb_cfg @ ''/'' @ basename f))
                                 (take (Suc n) three_urls)"
    by blast
  have r2: "fst ?ok = Inr ()"
    "files (snd ?ok) ''resources/nrt/c.nc'' = Some ''netcdf:https://archive.test/protected/c.nc''"
    by (simp_all add: three_urls_def run_eval nb_env_fields nb_world_def)
  then have eq2: "?ok = (Inr (), snd ?ok)"
    by (simp add: prod_eq_iff)
  from downloads_sequential_first_failure_aborts[OF eq2]
  have b: "\<exists>evs. trace (snd ?ok) = trace nb_world @ evs
          \<and> retrievals evs = map (\<lambda>f. (f, data nb_cfg @ ''/'' @ basename f)) three_urls"
    by blast
  from r t f a r2 b show ?thesis by simp
qed

section \<open>C10: the lookback value and an existing watermark\<close>



end
